theory Spec2Isabelle
  imports Complex_Main
begin

section \<open>The chat component: message list, response acquisition, clipboard\<close>

text \<open>
  The repository holds one React component, \<^verbatim>\<open>ChatInterface\<close>, in two variants that
  differ in the response acquirer only: \<^verbatim>\<open>src/components/ChatInterface.tsx\<close> answers with
  \<^verbatim>\<open>simulateAIResponse\<close>, the second file with \<^verbatim>\<open>getAIResponse\<close>, which reads a stream
  from an external provider. \<^verbatim>\<open>handleSendMessage\<close> and \<^verbatim>\<open>copyMessage\<close> are the same
  text in both files.

  What the component reads from its environment is a parameter of the model: the
  readings of the clock (\<^verbatim>\<open>Date.now()\<close>, \<^verbatim>\<open>new Date()\<close>), the value of
  \<^verbatim>\<open>Math.random()\<close>, the reply of the provider, and whether the clipboard write succeeds.
  \<^verbatim>\<open>console.error\<close> writes to the developer console only and is left out.
\<close>

subsection \<open>JavaScript strings\<close>

text \<open>
  A string is the list of its code units. A \<^typ>\<open>char\<close> holds the code units 0 to 255, and
  \<^verbatim>\<open>trim\<close> and \<^verbatim>\<open>toLowerCase\<close> are written for that range: the white space and line
  terminators below 256 are 9 to 13, 32 and 160; the letters with a lower-case form are
  A to Z and 192 to 222 without 215, each 32 below its lower-case form.
\<close>

definition isWhiteSpace :: "char \<Rightarrow> bool" where
  "isWhiteSpace c = ((of_char c :: nat) \<in> {9, 10, 11, 12, 13, 32, 160})"

definition trim :: "string \<Rightarrow> string" where
  "trim s = rev (dropWhile isWhiteSpace (rev (dropWhile isWhiteSpace s)))"

definition toLowerCase_char :: "char \<Rightarrow> char" where
  "toLowerCase_char c =
     (let n = (of_char c :: nat)
      in if (65 \<le> n \<and> n \<le> 90) \<or> (192 \<le> n \<and> n \<le> 222 \<and> n \<noteq> 215)
         then char_of (n + 32) else c)"

definition toLowerCase :: "string \<Rightarrow> string" where
  "toLowerCase s = map toLowerCase_char s"

fun startsWith :: "string \<Rightarrow> string \<Rightarrow> bool" where
  "startsWith s [] = True"
| "startsWith [] (p # ps) = False"
| "startsWith (c # cs) (p # ps) = (c = p \<and> startsWith cs ps)"

text \<open>\<^verbatim>\<open>s.includes(sub)\<close>: \<open>sub\<close> occurs in \<open>s\<close> at some position.\<close>

fun includes_str :: "string \<Rightarrow> string \<Rightarrow> bool" where
  "includes_str [] sub = (sub = [])"
| "includes_str (c # cs) sub = (startsWith (c # cs) sub \<or> includes_str cs sub)"

text \<open>
  \<^verbatim>\<open>Number.prototype.toString\<close> on an integer: its decimal digits, with a minus sign
  below zero. (The exponent notation starts at \<open>10\<^sup>2\<^sup>1\<close>, far beyond any clock reading.)
\<close>

definition digitChars :: string where
  "digitChars = ''0123456789''"

function digits :: "nat \<Rightarrow> string" where
  "digits n = (if n < 10 then [digitChars ! n]
               else digits (n div 10) @ [digitChars ! (n mod 10)])"
  by pat_completeness auto
termination
  by (relation "measure (\<lambda>n. n)") auto

declare digits.simps [simp del]

definition toString :: "int \<Rightarrow> string" where
  "toString n = (if n < 0 then CHR ''-'' # digits (nat (- n)) else digits (nat n))"

subsection \<open>The simulated acquirer (\<^verbatim>\<open>simulateAIResponse\<close>, ChatInterface.tsx 29-56)\<close>

definition greetingResponse :: string where
  "greetingResponse = ''Hello! I'm Claude, your AI assistant. How can I help you today?''"

definition weatherResponse :: string where
  "weatherResponse = ''I don't have access to real-time weather data, but I'd be happy to help you find weather information or discuss climate topics in general.''"

definition searchResponse :: string where
  "searchResponse = ''I understand you'd like me to search for information. In a real implementation, I would search the web for relevant results about your query.''"

definition thinkResponse :: string where
  "thinkResponse = ''Let me think deeply about this... In this mode, I would provide more thoughtful, analytical responses with deeper reasoning and consideration of multiple perspectives.''"

definition canvasResponse :: string where
  "canvasResponse = ''Canvas mode activated! In a real implementation, this would allow me to create visual content, diagrams, or interactive elements to help illustrate concepts.''"

definition voiceResponse :: string where
  "voiceResponse = ''I received your voice message! In a complete implementation, I would process the audio and respond accordingly.''"

definition responses :: "string list" where
  "responses =
    [''That's an interesting question! I'd be happy to help you explore that topic further.'',
     ''I understand what you're asking about. Let me provide some insights on that.'',
     ''Great question! Here's what I can tell you about that subject.'',
     ''I appreciate you sharing that with me. Let me offer some thoughts on this matter.'',
     ''That's a thoughtful inquiry. I'll do my best to provide you with a helpful response.'']"

definition disclaimer :: string where
  "disclaimer = '' (This is a demo response - in a real implementation, I would provide more specific and helpful answers based on your actual question.)''"

text \<open>
  The numbers of the source are IEEE 754 doubles. A finite double is modelled by the
  rational it denotes. \<open>ulp x\<close> is the distance between neighbouring doubles at the
  magnitude of \<open>x\<close>: \<open>2\<^sup>-\<^sup>5\<^sup>2\<close> times the power of two at or below \<open>\<bar>x\<bar>\<close>, and
  \<open>2\<^sup>-\<^sup>1\<^sup>0\<^sup>7\<^sup>4\<close> below \<open>2\<^sup>-\<^sup>1\<^sup>0\<^sup>2\<^sup>2\<close>. \<open>fl x\<close> is the double nearest to \<open>x\<close>, a tie going to
  the even significand: the result of an arithmetic operation whose exact value is \<open>x\<close>
  (for magnitudes below \<open>2\<^sup>1\<^sup>0\<^sup>2\<^sup>4\<close>; infinities and NaN do not arise here).
\<close>

definition roundHalfEven :: "rat \<Rightarrow> int" where
  "roundHalfEven y =
     (let f = \<lfloor>y\<rfloor>; d = y - of_int f
      in if d < 1 / 2 then f else if 1 / 2 < d then f + 1 else if even f then f else f + 1)"

fun ulpAbove :: "nat \<Rightarrow> rat \<Rightarrow> rat" where
  "ulpAbove 0 x = 1 / 2 ^ 52"
| "ulpAbove (Suc n) x = (if 2 \<le> x then 2 * ulpAbove n (x / 2) else 1 / 2 ^ 52)"

fun ulpBelow :: "nat \<Rightarrow> rat \<Rightarrow> rat" where
  "ulpBelow 0 x = 1 / 2 ^ 52"
| "ulpBelow (Suc n) x = (if x < 1 then ulpBelow n (2 * x) / 2 else 1 / 2 ^ 52)"

definition ulp :: "rat \<Rightarrow> rat" where
  "ulp x = (if 1 \<le> \<bar>x\<bar> then ulpAbove 1023 \<bar>x\<bar> else ulpBelow 1022 \<bar>x\<bar>)"

definition fl :: "rat \<Rightarrow> rat" where
  "fl x = of_int (roundHalfEven (x / ulp x)) * ulp x"

definition isDouble :: "rat \<Rightarrow> bool" where
  "isDouble x = (fl x = x)"

text \<open>
  \<^verbatim>\<open>responses[Math.floor(Math.random() * responses.length)]\<close>, with \<open>random\<close> the double
  that \<^verbatim>\<open>Math.random()\<close> returns and the product rounded as the multiplication of
  doubles rounds it; an index outside the array reads \<^verbatim>\<open>undefined\<close>, which \<^verbatim>\<open>+\<close> turns
  into the text "undefined".
\<close>

definition pickResponse :: "rat \<Rightarrow> string" where
  "pickResponse random =
     (let i = \<lfloor>fl (random * of_nat (length responses))\<rfloor>
      in if 0 \<le> i \<and> i < int (length responses) then responses ! nat i else ''undefined'')"

text \<open>
  The rules in the order of the source; the first that matches answers. The delay before
  the answer (1500 to 3500 ms) shows in the clock readings of the turn only.
\<close>

definition simulateAIResponse :: "rat \<Rightarrow> string \<Rightarrow> string" where
  "simulateAIResponse random userMessage =
     (if includes_str (toLowerCase userMessage) ''hello'' \<or> includes_str (toLowerCase userMessage) ''hi''
        then greetingResponse
      else if includes_str (toLowerCase userMessage) ''weather'' then weatherResponse
      else if includes_str userMessage ''[Search:'' then searchResponse
      else if includes_str userMessage ''[Think:'' then thinkResponse
      else if includes_str userMessage ''[Canvas:'' then canvasResponse
      else if includes_str userMessage ''[Voice message'' then voiceResponse
      else pickResponse random @ disclaimer)"

subsection \<open>The provider-backed acquirer (\<^verbatim>\<open>getAIResponse\<close>, second file 31-48)\<close>

text \<open>
  What a \<^verbatim>\<open>catch\<close> receives: an instance of \<^verbatim>\<open>Error\<close> with its message, or any other
  value, with its \<^verbatim>\<open>message\<close> property when it has one.
\<close>

datatype Thrown = ErrorInstance string | OtherValue "string option"

text \<open>A fragment of the stream: \<^verbatim>\<open>null\<close>/\<^verbatim>\<open>undefined\<close>, or an object whose \<^verbatim>\<open>text\<close> may be missing.\<close>

datatype Part = Nullish | Part "string option"

text \<open>
  The provider either throws at the call, or returns a stream that yields fragments and
  then ends (\<open>None\<close>) or throws (\<open>Some e\<close>).
\<close>

datatype ProviderReply = CallThrows Thrown | Stream "Part list" "Thrown option"

record ChatOptions =
  model :: string
  stream :: bool

text \<open>\<^verbatim>\<open>part?.text || ""\<close>\<close>

definition partText :: "Part \<Rightarrow> string" where
  "partText part =
     (case part of
        Nullish \<Rightarrow> []
      | Part None \<Rightarrow> []
      | Part (Some t) \<Rightarrow> (if t = [] then [] else t))"

definition noResponseText :: string where
  "noResponseText = ''I apologize, but I didn't receive a proper response. Please try again.''"

text \<open>\<^verbatim>\<open>error instanceof Error ? error.message : 'Unknown error'\<close>\<close>

definition errorText :: "Thrown \<Rightarrow> string" where
  "errorText error = (case error of ErrorInstance m \<Rightarrow> m | OtherValue _ \<Rightarrow> ''Unknown error'')"

definition rethrow :: "Thrown \<Rightarrow> Thrown" where
  "rethrow error = ErrorInstance (''Failed to get AI response: '' @ errorText error)"

text \<open>The result of an acquirer: \<open>Inl\<close> the value it throws, \<open>Inr\<close> the text it returns.\<close>

definition getAIResponse :: "(string \<Rightarrow> ChatOptions \<Rightarrow> ProviderReply) \<Rightarrow> string \<Rightarrow> Thrown + string" where
  "getAIResponse chat userMessage =
     (case chat userMessage \<lparr>model = ''claude-3-5-sonnet'', stream = True\<rparr> of
        CallThrows error \<Rightarrow> Inl (rethrow error)
      | Stream parts (Some error) \<Rightarrow> Inl (rethrow error)
      | Stream parts None \<Rightarrow>
          (let fullResponse = fold (\<lambda>part acc. acc @ partText part) parts []
           in Inr (if fullResponse = [] then noResponseText else fullResponse)))"

text \<open>
  The acquirer of the first file, as \<^verbatim>\<open>handleSendMessage\<close> calls it; that of the second
  file is \<open>getAIResponse chat\<close>.
\<close>

definition simulated :: "rat \<Rightarrow> string \<Rightarrow> Thrown + string" where
  "simulated random userMessage = Inr (simulateAIResponse random userMessage)"

subsection \<open>Messages and the state of the component\<close>

datatype File = File string

datatype Sender = user | ai

record Message =
  msg_id :: string
  content :: string
  sender :: Sender
  timestamp :: int
  files :: "File list option"

record ChatState =
  messages :: "Message list"
  isLoading :: bool
  copiedId :: "string option"

definition initialState :: ChatState where
  "initialState = \<lparr>messages = [], isLoading = False, copiedId = None\<rparr>"

text \<open>The state setters of React: each call queues an update of one field.\<close>

definition setMessages :: "(Message list \<Rightarrow> Message list) \<Rightarrow> ChatState \<Rightarrow> ChatState" where
  "setMessages f s = s\<lparr>messages := f (messages s)\<rparr>"

definition setIsLoading :: "bool \<Rightarrow> ChatState \<Rightarrow> ChatState" where
  "setIsLoading b s = s\<lparr>isLoading := b\<rparr>"

definition setCopiedId :: "string option \<Rightarrow> ChatState \<Rightarrow> ChatState" where
  "setCopiedId c s = s\<lparr>copiedId := c\<rparr>"

text \<open>
  The updates queued by one synchronous stretch of code are applied together, in the
  order of the calls, when the stretch ends (React batches them into one render).
\<close>

definition commit :: "(ChatState \<Rightarrow> ChatState) list \<Rightarrow> ChatState \<Rightarrow> ChatState" where
  "commit updates s = fold (\<lambda>u. u) updates s"

subsection \<open>One turn (\<^verbatim>\<open>handleSendMessage\<close>, ChatInterface.tsx 58-97, second file 50-89)\<close>

text \<open>
  The four readings of the clock in one turn, in milliseconds since the epoch:
  \<^verbatim>\<open>Date.now()\<close> and \<^verbatim>\<open>new Date()\<close> for the user message, and again for the answer once the
  acquirer has settled.
\<close>

record Clock =
  userNow :: int
  userDate :: int
  aiNow :: int
  aiDate :: int

definition fallbackText :: string where
  "fallbackText = ''I apologize, but I encountered an error while processing your message. Please try again.''"

text \<open>\<^verbatim>\<open>!content.trim() && (!files || files.length === 0)\<close>\<close>

definition rejected :: "string \<Rightarrow> File list option \<Rightarrow> bool" where
  "rejected input fs =
     (trim input = [] \<and> (case fs of None \<Rightarrow> True | Some l \<Rightarrow> length l = 0))"

definition userMessage :: "Clock \<Rightarrow> string \<Rightarrow> File list option \<Rightarrow> Message" where
  "userMessage clk input fs =
     \<lparr>msg_id = toString (userNow clk), content = input, sender = user,
      timestamp = userDate clk, files = fs\<rparr>"

definition aiMessage :: "Clock \<Rightarrow> string \<Rightarrow> Message" where
  "aiMessage clk aiResponse =
     \<lparr>msg_id = toString (aiNow clk + 1), content = aiResponse, sender = ai,
      timestamp = aiDate clk, files = None\<rparr>"

definition errorMessage :: "Clock \<Rightarrow> Message" where
  "errorMessage clk =
     \<lparr>msg_id = toString (aiNow clk + 1), content = fallbackText, sender = ai,
      timestamp = aiDate clk, files = None\<rparr>"

text \<open>The stretch up to the \<^verbatim>\<open>await\<close>.\<close>

definition beforeAwait :: "Clock \<Rightarrow> string \<Rightarrow> File list option \<Rightarrow> (ChatState \<Rightarrow> ChatState) list" where
  "beforeAwait clk input fs =
     [setMessages (\<lambda>prev. prev @ [userMessage clk input fs]), setIsLoading True]"

text \<open>The stretch after it: the rest of \<^verbatim>\<open>try\<close> or the \<^verbatim>\<open>catch\<close>, then \<^verbatim>\<open>finally\<close>.\<close>

definition afterAwait :: "Clock \<Rightarrow> Thrown + string \<Rightarrow> (ChatState \<Rightarrow> ChatState) list" where
  "afterAwait clk settled =
     (case settled of
        Inr aiResponse \<Rightarrow> [setMessages (\<lambda>prev. prev @ [aiMessage clk aiResponse])]
      | Inl error \<Rightarrow> [setMessages (\<lambda>prev. prev @ [errorMessage clk])])
     @ [setIsLoading False]"

text \<open>
  The states the component passes through in one call: none when the input is rejected,
  else the state while the acquirer is awaited and the state when the call has ended.
\<close>

definition handleSendMessage_renders ::
  "(string \<Rightarrow> Thrown + string) \<Rightarrow> Clock \<Rightarrow> string \<Rightarrow> File list option \<Rightarrow> ChatState \<Rightarrow> ChatState list" where
  "handleSendMessage_renders acquire clk input fs s =
     (if rejected input fs then []
      else let awaiting = commit (beforeAwait clk input fs) s;
               ended = commit (afterAwait clk (acquire input)) awaiting
           in [awaiting, ended])"

definition handleSendMessage ::
  "(string \<Rightarrow> Thrown + string) \<Rightarrow> Clock \<Rightarrow> string \<Rightarrow> File list option \<Rightarrow> ChatState \<Rightarrow> ChatState" where
  "handleSendMessage acquire clk input fs s =
     last (s # handleSendMessage_renders acquire clk input fs s)"

subsection \<open>A session: turns one after the other\<close>

record Turn =
  sent :: string
  attached :: "File list option"
  clock :: Clock
  acquirer :: "string \<Rightarrow> Thrown + string"

definition turn :: "Turn \<Rightarrow> ChatState \<Rightarrow> ChatState" where
  "turn t s = handleSendMessage (acquirer t) (clock t) (sent t) (attached t) s"

definition session :: "Turn list \<Rightarrow> ChatState" where
  "session turns = fold turn turns initialState"

text \<open>The readings of the clock that become timestamps, in the order they are taken.\<close>

definition dateReadings :: "Turn list \<Rightarrow> int list" where
  "dateReadings turns = concat (map (\<lambda>t. [userDate (clock t), aiDate (clock t)]) turns)"

text \<open>All readings of the clock in a session, in the order they are taken.\<close>

definition clockReadings :: "Turn list \<Rightarrow> int list" where
  "clockReadings turns =
     concat (map (\<lambda>t. [userNow (clock t), userDate (clock t), aiNow (clock t), aiDate (clock t)])
       turns)"

subsection \<open>The clipboard (\<^verbatim>\<open>copyMessage\<close>, ChatInterface.tsx 99-107, second file 91-99)\<close>

text \<open>
  The page around the component: the system clipboard and the timers that
  \<^verbatim>\<open>setTimeout\<close> has started and that have not fired, each by the time it is due. Every
  timer of this component runs the same callback, \<^verbatim>\<open>setCopiedId(null)\<close>.
\<close>

record Page =
  ui :: ChatState
  clipboard :: string
  timers :: "int list"

definition initialPage :: Page where
  "initialPage = \<lparr>ui = initialState, clipboard = [], timers = []\<rparr>"

text \<open>
  \<open>now\<close> is the time at which \<^verbatim>\<open>writeText\<close> settles, \<open>written\<close> whether it succeeded.
  The source never calls \<^verbatim>\<open>clearTimeout\<close>.
\<close>

definition copyMessage :: "bool \<Rightarrow> int \<Rightarrow> string \<Rightarrow> string \<Rightarrow> Page \<Rightarrow> Page" where
  "copyMessage written now text messageId p =
     (if written
      then p\<lparr>ui := setCopiedId (Some messageId) (ui p),
             clipboard := text,
             timers := timers p @ [now + 2000]\<rparr>
      else p)"

text \<open>Time passes up to \<open>now\<close>: every timer due by then fires and is gone.\<close>

definition elapse :: "int \<Rightarrow> Page \<Rightarrow> Page" where
  "elapse now p =
     p\<lparr>ui := fold (\<lambda>due. setCopiedId None) (filter (\<lambda>due. due \<le> now) (timers p)) (ui p),
       timers := filter (\<lambda>due. \<not> due \<le> now) (timers p)\<rparr>"

text \<open>Two copies from the initial page, at \<open>t1\<close> and at \<open>t2\<close>: the page right after the second.\<close>

definition copyTwice :: "int \<Rightarrow> string \<Rightarrow> string \<Rightarrow> int \<Rightarrow> string \<Rightarrow> string \<Rightarrow> Page" where
  "copyTwice t1 text1 id1 t2 text2 id2 =
     copyMessage True t2 text2 id2 (elapse t2 (copyMessage True t1 text1 id1 initialPage))"

section \<open>Properties\<close>

subsection \<open>Strings\<close>

lemma startsWith_iff: "startsWith s p \<longleftrightarrow> (\<exists>q. s = p @ q)"
  by (induction s p rule: startsWith.induct) auto

text \<open>\<open>includes_str\<close> is the search for a contiguous occurrence.\<close>

lemma includes_str_iff: "includes_str s sub \<longleftrightarrow> (\<exists>p q. s = p @ sub @ q)"
proof (induction s)
  case Nil
  then show ?case by simp
next
  case (Cons c cs)
  show ?case
  proof
    assume "includes_str (c # cs) sub"
    then consider "startsWith (c # cs) sub" | "includes_str cs sub" by auto
    then show "\<exists>p q. c # cs = p @ sub @ q"
    proof cases
      case 1
      then obtain q where "c # cs = sub @ q" by (auto simp: startsWith_iff)
      then have "c # cs = [] @ sub @ q" by simp
      then show ?thesis by blast
    next
      case 2
      then obtain p q where "cs = p @ sub @ q" using Cons.IH by blast
      then have "c # cs = (c # p) @ sub @ q" by simp
      then show ?thesis by blast
    qed
  next
    assume "\<exists>p q. c # cs = p @ sub @ q"
    then obtain p q where pq: "c # cs = p @ sub @ q" by blast
    show "includes_str (c # cs) sub"
    proof (cases p)
      case Nil
      with pq have "startsWith (c # cs) sub" by (auto simp: startsWith_iff)
      then show ?thesis by simp
    next
      case (Cons a p')
      with pq have "cs = p' @ sub @ q" by simp
      then have "includes_str cs sub" using Cons.IH by blast
      then show ?thesis by simp
    qed
  qed
qed

subsection \<open>The simulated acquirer\<close>

lemma roundHalfEven_upper: "of_int (roundHalfEven y) \<le> y + 1 / 2"
proof -
  have f: "of_int \<lfloor>y\<rfloor> \<le> y" by simp
  show ?thesis
  proof (cases "y - of_int \<lfloor>y\<rfloor> < 1 / 2")
    case True
    then have "roundHalfEven y = \<lfloor>y\<rfloor>" by (simp add: roundHalfEven_def Let_def)
    moreover from f have "of_int \<lfloor>y\<rfloor> \<le> y + 1 / 2" by linarith
    ultimately show ?thesis by (simp only:)
  next
    case False
    then have "of_int \<lfloor>y\<rfloor> + 1 \<le> y + 1 / 2" by simp
    moreover have "roundHalfEven y \<le> \<lfloor>y\<rfloor> + 1" by (simp add: roundHalfEven_def Let_def)
    then have "(of_int (roundHalfEven y) :: rat) \<le> of_int (\<lfloor>y\<rfloor> + 1)"
      by (simp only: of_int_le_iff)
    ultimately show ?thesis by simp
  qed
qed

lemma roundHalfEven_nonneg: "0 \<le> y \<Longrightarrow> 0 \<le> roundHalfEven y"
  by (auto simp: roundHalfEven_def Let_def)

lemma ulpAbove_pos: "0 < ulpAbove n x"
  by (induction n arbitrary: x) auto

lemma ulpBelow_pos: "0 < ulpBelow n x"
  by (induction n arbitrary: x) auto

lemma ulp_pos: "0 < ulp x"
  by (simp add: ulp_def ulpAbove_pos ulpBelow_pos)

lemma ulpBelow_le: "ulpBelow n x \<le> 1 / 2 ^ 52"
proof (induction n arbitrary: x)
  case 0
  show ?case by simp
next
  case (Suc n)
  have "ulpBelow n (2 * x) / 2 \<le> ulpBelow n (2 * x)"
    using ulpBelow_pos [of n "2 * x"] by simp
  also have "\<dots> \<le> 1 / 2 ^ 52" by (rule Suc.IH)
  finally show ?case by simp
qed

lemma ulpAbove_le: "x < 2 * 2 ^ k \<Longrightarrow> ulpAbove n x \<le> 2 ^ k / 2 ^ 52"
proof (induction n arbitrary: x k)
  case 0
  have "(1::rat) \<le> 2 ^ k" by simp
  then show ?case by (simp add: divide_right_mono)
next
  case (Suc n)
  show ?case
  proof (cases "2 \<le> x")
    case False
    have "(1::rat) \<le> 2 ^ k" by simp
    with False show ?thesis by (simp add: divide_right_mono)
  next
    case True
    with Suc.prems obtain j where k: "k = Suc j"
      by (cases k) auto
    with Suc.prems have "x / 2 < 2 * 2 ^ j" by simp
    then have "ulpAbove n (x / 2) \<le> 2 ^ j / 2 ^ 52" by (rule Suc.IH)
    with True k show ?thesis by simp
  qed
qed

text \<open>Below 8 the doubles are at most \<open>2\<^sup>-\<^sup>5\<^sup>0\<close> apart.\<close>

lemma ulp_le: "\<bar>x\<bar> < 8 \<Longrightarrow> ulp x \<le> 1 / 2 ^ 50"
proof -
  assume "\<bar>x\<bar> < 8"
  then have "\<bar>x\<bar> < 2 * 2 ^ 2" by simp
  then have "ulpAbove 1023 \<bar>x\<bar> \<le> 2 ^ 2 / 2 ^ 52" by (rule ulpAbove_le)
  moreover have "ulpBelow 1022 \<bar>x\<bar> \<le> 1 / 2 ^ 52" by (rule ulpBelow_le)
  ultimately show ?thesis by (simp add: ulp_def)
qed

text \<open>Rounding moves a value up by half the distance between doubles at most.\<close>

lemma fl_upper: "fl x \<le> x + ulp x / 2"
proof -
  have "of_int (roundHalfEven (x / ulp x)) * ulp x \<le> (x / ulp x + 1 / 2) * ulp x"
    using roundHalfEven_upper [of "x / ulp x"] ulp_pos [of x]
    by (simp add: mult_right_mono)
  also have "\<dots> = x + ulp x / 2"
    using ulp_pos [of x] by (simp add: field_simps)
  finally show ?thesis by (simp add: fl_def)
qed

lemma fl_nonneg: "0 \<le> x \<Longrightarrow> 0 \<le> fl x"
  using ulp_pos [of x] by (simp add: fl_def roundHalfEven_nonneg)

lemma ulpBelow_done: "1 \<le> y \<Longrightarrow> ulpBelow n y = 1 / 2 ^ 52"
  by (cases n) simp_all

lemma ulpBelow_step: "x < 1 \<Longrightarrow> ulpBelow (Suc n) x = ulpBelow n (2 * x) / 2"
  by simp

lemma ulp_upper_half:
  assumes "1 / 2 \<le> x" and "x < 1"
  shows "ulp x = 1 / 2 ^ 53"
proof -
  from assms have ax: "\<bar>x\<bar> = x" by simp
  have "ulp x = ulpBelow (Suc 1021) x"
    using assms ax by (simp add: ulp_def del: ulpBelow.simps)
  also have "\<dots> = ulpBelow 1021 (2 * x) / 2"
    using assms(2) by (rule ulpBelow_step)
  also have "ulpBelow 1021 (2 * x) = 1 / 2 ^ 52"
    using assms(1) by (simp add: ulpBelow_done)
  finally show ?thesis by simp
qed

text \<open>The greatest double below 1 is \<open>1 - 2\<^sup>-\<^sup>5\<^sup>3\<close>.\<close>

lemma double_below_one:
  assumes "isDouble r" and "r < 1"
  shows "r \<le> 1 - 1 / 2 ^ 53"
proof (cases "1 / 2 \<le> r")
  case False
  then have "r < 1 / 2" by simp
  also have "(1 / 2 :: rat) \<le> 1 - 1 / 2 ^ 53" by simp
  finally show ?thesis by simp
next
  case True
  then have u: "ulp r = 1 / 2 ^ 53" using assms(2) by (rule ulp_upper_half)
  define k where "k = roundHalfEven (r / ulp r)"
  have r: "r = of_int k / 2 ^ 53"
    using assms(1) by (simp add: isDouble_def fl_def k_def u)
  with assms(2) have "(of_int k :: rat) < 2 ^ 53" by simp
  then have "(of_int k :: rat) < of_int (2 ^ 53)" by simp
  then have "k < 2 ^ 53" by (simp only: of_int_less_iff)
  then have "k \<le> 2 ^ 53 - 1" by simp
  then have "(of_int k :: rat) \<le> of_int (2 ^ 53 - 1)" by (simp only: of_int_le_iff)
  then have "(of_int k :: rat) \<le> 2 ^ 53 - 1" by simp
  then have "of_int k / 2 ^ 53 \<le> ((2 ^ 53 - 1) / 2 ^ 53 :: rat)"
    by (simp add: divide_right_mono)
  with r show ?thesis by simp
qed

text \<open>
  The product of a double below 1 and 5, rounded, stays below 5: the exact product is at
  most \<open>5 - 5 / 2\<^sup>5\<^sup>3\<close>, and rounding adds \<open>1 / 2\<^sup>5\<^sup>1\<close> at most.
\<close>

lemma product_index:
  assumes "isDouble r" and "0 \<le> r" and "r < 1"
  shows "0 \<le> \<lfloor>fl (r * 5)\<rfloor> \<and> \<lfloor>fl (r * 5)\<rfloor> < 5"
proof
  have "0 \<le> fl (r * 5)" using assms(2) by (simp add: fl_nonneg)
  then show "0 \<le> \<lfloor>fl (r * 5)\<rfloor>" by simp
next
  have b: "r \<le> 1 - 1 / 2 ^ 53" using assms(1,3) by (rule double_below_one)
  have "\<bar>r * 5\<bar> < 8" using assms(2,3) by simp
  then have "ulp (r * 5) \<le> 1 / 2 ^ 50" by (rule ulp_le)
  then have "fl (r * 5) \<le> r * 5 + (1 / 2 ^ 50) / 2"
    using fl_upper [of "r * 5"] by simp
  also have "\<dots> \<le> (1 - 1 / 2 ^ 53) * 5 + (1 / 2 ^ 50) / 2" using b by simp
  also have "\<dots> < 5" by simp
  finally have "fl (r * 5) < 5" .
  then show "\<lfloor>fl (r * 5)\<rfloor> < 5" by (simp add: floor_less_iff)
qed

lemma pickResponse_in:
  assumes "isDouble random" and "0 \<le> random" and "random < 1"
  shows "pickResponse random \<in> set responses"
proof -
  have n: "length responses = 5" by (simp add: responses_def)
  let ?i = "\<lfloor>fl (random * 5)\<rfloor>"
  from assms have i: "0 \<le> ?i \<and> ?i < 5" by (rule product_index)
  then have "nat ?i < length responses" using n by linarith
  then have "responses ! nat ?i \<in> set responses" by (rule nth_mem)
  with i n show ?thesis by (simp add: pickResponse_def Let_def)
qed

text \<open>
  C10. Every input whose lower-case form contains "hi" anywhere, inside a word as well
  ("this", "history"), gets the greeting: the first rule looks for the two letters, not
  for the word.
\<close>

theorem hi_anywhere_greets:
  assumes "toLowerCase msg = p @ ''hi'' @ q"
  shows "simulateAIResponse random msg = greetingResponse"
proof -
  from assms have "includes_str (toLowerCase msg) ''hi''"
    unfolding includes_str_iff by blast
  then show ?thesis by (simp add: simulateAIResponse_def)
qed

theorem hi_anywhere_greets_witness:
  "toLowerCase ''This is history'' = ''t'' @ ''hi'' @ ''s is history''
   \<and> simulateAIResponse 0 ''This is history'' = greetingResponse"
proof -
  have h: "toLowerCase ''This is history'' = ''t'' @ ''hi'' @ ''s is history''"
    by code_simp
  show ?thesis using h hi_anywhere_greets [OF h, of 0] by simp
qed

text \<open>
  C8, as stated, fails in its third part: an input that contains "[Search:" and also
  "weather" is answered by the weather rule, which stands earlier in the chain.
\<close>

theorem search_rule_counterexample:
  "includes_str ''[Search: weather]'' ''[Search:''
   \<and> simulateAIResponse 0 ''[Search: weather]'' = weatherResponse
   \<and> simulateAIResponse 0 ''[Search: weather]'' \<noteq> searchResponse"
proof -
  have "includes_str ''[Search: weather]'' ''[Search:''" by code_simp
  moreover have "simulateAIResponse 0 ''[Search: weather]'' = weatherResponse" by code_simp
  moreover have "weatherResponse \<noteq> searchResponse"
    by (simp add: weatherResponse_def searchResponse_def)
  ultimately show ?thesis by simp
qed

text \<open>
  C8, amended. The simulated acquirer never throws. An input whose lower-case form
  contains "hello" gets the greeting. An input that contains "[Search:" gets the
  search-mode response when no earlier rule matches, that is when its lower-case form
  contains none of "hello", "hi", "weather". An input that matches no rule gets one of
  the five generic acknowledgements followed by the disclaimer (\<^verbatim>\<open>Math.random()\<close> returns a
  double from 0 up to, not including, 1, and the index is computed in double arithmetic).
\<close>

theorem simulated_rules:
  "(\<exists>r. simulated random msg = Inr r)
   \<and> (includes_str (toLowerCase msg) ''hello'' \<longrightarrow>
        simulateAIResponse random msg = greetingResponse)
   \<and> (includes_str msg ''[Search:''
        \<and> \<not> includes_str (toLowerCase msg) ''hello''
        \<and> \<not> includes_str (toLowerCase msg) ''hi''
        \<and> \<not> includes_str (toLowerCase msg) ''weather'' \<longrightarrow>
        simulateAIResponse random msg = searchResponse)
   \<and> (\<not> includes_str (toLowerCase msg) ''hello''
        \<and> \<not> includes_str (toLowerCase msg) ''hi''
        \<and> \<not> includes_str (toLowerCase msg) ''weather''
        \<and> \<not> includes_str msg ''[Search:''
        \<and> \<not> includes_str msg ''[Think:''
        \<and> \<not> includes_str msg ''[Canvas:''
        \<and> \<not> includes_str msg ''[Voice message''
        \<and> isDouble random \<and> 0 \<le> random \<and> random < 1 \<longrightarrow>
        (\<exists>r \<in> set responses. simulateAIResponse random msg = r @ disclaimer))"
proof (intro conjI impI)
  show "\<exists>r. simulated random msg = Inr r" by (simp add: simulated_def)
next
  assume "includes_str (toLowerCase msg) ''hello''"
  then show "simulateAIResponse random msg = greetingResponse"
    by (simp add: simulateAIResponse_def)
next
  assume "includes_str msg ''[Search:''
        \<and> \<not> includes_str (toLowerCase msg) ''hello''
        \<and> \<not> includes_str (toLowerCase msg) ''hi''
        \<and> \<not> includes_str (toLowerCase msg) ''weather''"
  then show "simulateAIResponse random msg = searchResponse"
    by (simp add: simulateAIResponse_def)
next
  assume h: "\<not> includes_str (toLowerCase msg) ''hello''
        \<and> \<not> includes_str (toLowerCase msg) ''hi''
        \<and> \<not> includes_str (toLowerCase msg) ''weather''
        \<and> \<not> includes_str msg ''[Search:''
        \<and> \<not> includes_str msg ''[Think:''
        \<and> \<not> includes_str msg ''[Canvas:''
        \<and> \<not> includes_str msg ''[Voice message''
        \<and> isDouble random \<and> 0 \<le> random \<and> random < 1"
  then have "simulateAIResponse random msg = pickResponse random @ disclaimer"
    by (simp add: simulateAIResponse_def)
  moreover from h have "pickResponse random \<in> set responses"
    by (simp add: pickResponse_in)
  ultimately show "\<exists>r \<in> set responses. simulateAIResponse random msg = r @ disclaimer"
    by blast
qed

text \<open>
  In the witness \<^verbatim>\<open>Math.random()\<close> returns the double nearest to 0.6: the exact product with
  5 lies just below 3, the product of doubles is 3, and the fourth acknowledgement
  is picked.
\<close>

theorem simulated_rules_witness:
  "includes_str (toLowerCase ''HeLLo there'') ''hello''
   \<and> simulateAIResponse (1 / 2) ''HeLLo there'' = greetingResponse
   \<and> includes_str ''[Search: cats]'' ''[Search:''
   \<and> simulateAIResponse (1 / 2) ''[Search: cats]'' = searchResponse
   \<and> isDouble (5404319552844595 / 9007199254740992)
   \<and> (5404319552844595 / 9007199254740992 :: rat) < 3 / 5
   \<and> simulated (5404319552844595 / 9007199254740992) ''ok'' = Inr (responses ! 3 @ disclaimer)"
proof -
  have h1: "includes_str (toLowerCase ''HeLLo there'') ''hello''" by code_simp
  have h2: "includes_str ''[Search: cats]'' ''[Search:''
        \<and> \<not> includes_str (toLowerCase ''[Search: cats]'') ''hello''
        \<and> \<not> includes_str (toLowerCase ''[Search: cats]'') ''hi''
        \<and> \<not> includes_str (toLowerCase ''[Search: cats]'') ''weather''" by code_simp
  have h3: "\<not> includes_str (toLowerCase ''ok'') ''hello''
        \<and> \<not> includes_str (toLowerCase ''ok'') ''hi''
        \<and> \<not> includes_str (toLowerCase ''ok'') ''weather''
        \<and> \<not> includes_str ''ok'' ''[Search:''
        \<and> \<not> includes_str ''ok'' ''[Think:''
        \<and> \<not> includes_str ''ok'' ''[Canvas:''
        \<and> \<not> includes_str ''ok'' ''[Voice message''
        \<and> isDouble (5404319552844595 / 9007199254740992)
        \<and> 0 \<le> (5404319552844595 / 9007199254740992 :: rat)
        \<and> (5404319552844595 / 9007199254740992 :: rat) < 1" by code_simp
  have h4: "simulated (5404319552844595 / 9007199254740992) ''ok'' = Inr (responses ! 3 @ disclaimer)"
    by code_simp
  have h5: "(5404319552844595 / 9007199254740992 :: rat) < 3 / 5" by simp
  show ?thesis
    using h1 h2 h3 h4 h5
      simulated_rules [of "1 / 2" "''HeLLo there''"]
      simulated_rules [of "1 / 2" "''[Search: cats]''"]
      simulated_rules [of "5404319552844595 / 9007199254740992" "''ok''"]
    by blast
qed

subsection \<open>The provider-backed acquirer\<close>

lemma fold_append_concat:
  "fold (\<lambda>part acc. acc @ f part) parts acc = acc @ concat (map f parts)"
  by (induction parts arbitrary: acc) auto

text \<open>
  C7, as stated, fails in its last part: when the provider throws a value that is not an
  \<^verbatim>\<open>Error\<close>, the message of the acquirer's error is the fixed text with "Unknown error",
  and the message that the thrown value carries is not in it.
\<close>

theorem wrapped_message_counterexample:
  "getAIResponse (\<lambda>prompt options. CallThrows (OtherValue (Some ''quota exceeded''))) ''question''
     = Inl (ErrorInstance ''Failed to get AI response: Unknown error'')
   \<and> \<not> includes_str ''Failed to get AI response: Unknown error'' ''quota exceeded''"
proof -
  have "getAIResponse (\<lambda>prompt options. CallThrows (OtherValue (Some ''quota exceeded''))) ''question''
     = Inl (ErrorInstance ''Failed to get AI response: Unknown error'')"
    by (simp add: getAIResponse_def rethrow_def errorText_def)
  moreover have "\<not> includes_str ''Failed to get AI response: Unknown error'' ''quota exceeded''"
    by code_simp
  ultimately show ?thesis by simp
qed

text \<open>
  C7, amended. When the provider returns a stream that ends, the acquirer returns the
  concatenation, in the order of arrival, of the text of each fragment, a missing
  fragment, a missing text and an empty text each giving the empty string; when that
  concatenation is empty it returns the fixed sentence instead. When the call to the
  provider throws an \<^verbatim>\<open>Error\<close>, the acquirer throws an error whose message is
  "Failed to get AI response: " followed by the message of that error; when the call
  throws any other value, the message is "Failed to get AI response: Unknown error".
\<close>

theorem getAIResponse_result:
  "(chat msg \<lparr>model = ''claude-3-5-sonnet'', stream = True\<rparr> = Stream parts None \<longrightarrow>
      getAIResponse chat msg =
        Inr (if concat (map partText parts) = [] then noResponseText
             else concat (map partText parts)))
   \<and> partText Nullish = [] \<and> partText (Part None) = [] \<and> partText (Part (Some t)) = t
   \<and> (chat msg \<lparr>model = ''claude-3-5-sonnet'', stream = True\<rparr> = CallThrows (ErrorInstance m) \<longrightarrow>
      getAIResponse chat msg = Inl (ErrorInstance (''Failed to get AI response: '' @ m)))
   \<and> (chat msg \<lparr>model = ''claude-3-5-sonnet'', stream = True\<rparr> = CallThrows (OtherValue v) \<longrightarrow>
      getAIResponse chat msg = Inl (ErrorInstance ''Failed to get AI response: Unknown error''))"
proof -
  have "partText Nullish = []" "partText (Part None) = []" "partText (Part (Some t)) = t"
    by (simp_all add: partText_def)
  then show ?thesis
    by (simp add: getAIResponse_def fold_append_concat rethrow_def errorText_def Let_def)
qed

theorem getAIResponse_result_witness:
  "getAIResponse (\<lambda>prompt options. Stream [Part (Some ''Hel''), Nullish, Part None, Part (Some []), Part (Some ''lo'')] None) ''q''
     = Inr ''Hello''
   \<and> getAIResponse (\<lambda>prompt options. Stream [Nullish, Part None] None) ''q'' = Inr noResponseText
   \<and> getAIResponse (\<lambda>prompt options. CallThrows (ErrorInstance ''network down'')) ''q''
     = Inl (ErrorInstance ''Failed to get AI response: network down'')
   \<and> getAIResponse (\<lambda>prompt options. CallThrows (OtherValue None)) ''q''
     = Inl (ErrorInstance ''Failed to get AI response: Unknown error'')"
  using
    getAIResponse_result [of "\<lambda>prompt options. Stream [Part (Some ''Hel''), Nullish, Part None, Part (Some []), Part (Some ''lo'')] None"
       "''q''" "[Part (Some ''Hel''), Nullish, Part None, Part (Some []), Part (Some ''lo'')]"]
    getAIResponse_result [of "\<lambda>prompt options. Stream [Nullish, Part None] None" "''q''" "[Nullish, Part None]"]
    getAIResponse_result [of "\<lambda>prompt options. CallThrows (ErrorInstance ''network down'')" "''q''" _ _ "''network down''"]
    getAIResponse_result [of "\<lambda>prompt options. CallThrows (OtherValue None)" "''q''" _ _ _ None]
  by (simp add: partText_def)

subsection \<open>One turn\<close>

lemma rejected_iff: "rejected input fs \<longleftrightarrow> trim input = [] \<and> (fs = None \<or> fs = Some [])"
  by (cases fs) (auto simp: rejected_def)

lemma renders_rejected:
  "rejected input fs \<Longrightarrow> handleSendMessage_renders acquire clk input fs s = []"
  by (simp add: handleSendMessage_renders_def)

lemma renders_accepted:
  assumes "\<not> rejected input fs"
  shows "handleSendMessage_renders acquire clk input fs s =
    [s\<lparr>messages := messages s @ [userMessage clk input fs], isLoading := True\<rparr>,
     s\<lparr>messages := messages s @ [userMessage clk input fs,
            (case acquire input of Inl error \<Rightarrow> errorMessage clk
                                 | Inr aiResponse \<Rightarrow> aiMessage clk aiResponse)],
       isLoading := False\<rparr>]"
  using assms
  by (cases "acquire input")
     (simp_all add: handleSendMessage_renders_def beforeAwait_def afterAwait_def commit_def
        setMessages_def setIsLoading_def Let_def)

lemma handleSendMessage_rejected:
  "rejected input fs \<Longrightarrow> handleSendMessage acquire clk input fs s = s"
  by (simp add: handleSendMessage_def renders_rejected)

lemma handleSendMessage_accepted:
  assumes "\<not> rejected input fs"
  shows "handleSendMessage acquire clk input fs s =
     s\<lparr>messages := messages s @ [userMessage clk input fs,
            (case acquire input of Inl error \<Rightarrow> errorMessage clk
                                 | Inr aiResponse \<Rightarrow> aiMessage clk aiResponse)],
       isLoading := False\<rparr>"
  by (simp add: handleSendMessage_def renders_accepted [OF assms])

lemma sender_answer:
  "sender (case settled of Inl error \<Rightarrow> errorMessage clk
                         | Inr aiResponse \<Rightarrow> aiMessage clk aiResponse) = ai"
  by (cases settled) (simp_all add: errorMessage_def aiMessage_def)

lemma timestamp_answer:
  "timestamp (case settled of Inl error \<Rightarrow> errorMessage clk
                            | Inr aiResponse \<Rightarrow> aiMessage clk aiResponse) = aiDate clk"
  by (cases settled) (simp_all add: errorMessage_def aiMessage_def)

text \<open>
  C1. A call whose text is not empty once trimmed, or that has a file, appends two
  messages, the user's and then the assistant's; a call whose trimmed text is empty and
  that has no file, or an empty list of files, leaves the state as it is.
\<close>

theorem submit_appends_two_or_none:
  "(trim input \<noteq> [] \<or> (\<exists>f l. fs = Some (f # l)) \<longrightarrow>
      (\<exists>u a. messages (handleSendMessage acquire clk input fs s) = messages s @ [u, a]
             \<and> sender u = user \<and> sender a = ai))
   \<and> (trim input = [] \<and> (fs = None \<or> fs = Some []) \<longrightarrow>
      handleSendMessage acquire clk input fs s = s)"
proof (intro conjI impI)
  assume "trim input \<noteq> [] \<or> (\<exists>f l. fs = Some (f # l))"
  then have "\<not> rejected input fs" by (auto simp: rejected_iff)
  then have "messages (handleSendMessage acquire clk input fs s) =
      messages s @ [userMessage clk input fs,
        (case acquire input of Inl error \<Rightarrow> errorMessage clk
                             | Inr aiResponse \<Rightarrow> aiMessage clk aiResponse)]"
    by (simp add: handleSendMessage_accepted)
  moreover have "sender (userMessage clk input fs) = user"
    by (simp add: userMessage_def)
  ultimately show "\<exists>u a. messages (handleSendMessage acquire clk input fs s) = messages s @ [u, a]
             \<and> sender u = user \<and> sender a = ai"
    using sender_answer by blast
next
  assume "trim input = [] \<and> (fs = None \<or> fs = Some [])"
  then have "rejected input fs" by (simp add: rejected_iff)
  then show "handleSendMessage acquire clk input fs s = s"
    by (rule handleSendMessage_rejected)
qed

theorem submit_appends_two_or_none_witness:
  "trim ''hey'' \<noteq> []
   \<and> map sender (messages (handleSendMessage (simulated 0)
        \<lparr>userNow = 1000, userDate = 1000, aiNow = 2500, aiDate = 2500\<rparr>
        ''hey'' None initialState)) = [user, ai]
   \<and> map sender (messages (handleSendMessage (simulated 0)
        \<lparr>userNow = 1000, userDate = 1000, aiNow = 2500, aiDate = 2500\<rparr>
        [] (Some [File ''notes.txt'']) initialState)) = [user, ai]
   \<and> trim '' '' = []
   \<and> handleSendMessage (simulated 0)
        \<lparr>userNow = 1000, userDate = 1000, aiNow = 2500, aiDate = 2500\<rparr>
        '' '' (Some []) initialState = initialState"
proof -
  have h1: "trim ''hey'' \<noteq> []" by code_simp
  have h2: "trim '' '' = []" by code_simp
  have m: "messages initialState = []" by (simp add: initialState_def)
  show ?thesis
    using h1 h2 m
      submit_appends_two_or_none [of "''hey''" None "simulated 0"
        "\<lparr>userNow = 1000, userDate = 1000, aiNow = 2500, aiDate = 2500\<rparr>" initialState]
      submit_appends_two_or_none [of "[]" "Some [File ''notes.txt'']" "simulated 0"
        "\<lparr>userNow = 1000, userDate = 1000, aiNow = 2500, aiDate = 2500\<rparr>" initialState]
      submit_appends_two_or_none [of "'' ''" "Some []" "simulated 0"
        "\<lparr>userNow = 1000, userDate = 1000, aiNow = 2500, aiDate = 2500\<rparr>" initialState]
    by auto
qed

text \<open>
  C6. The content of the stored user message is the submitted text as it came: the
  trimmed copy serves the test for emptiness only.
\<close>

theorem user_content_verbatim:
  assumes "\<not> rejected input fs"
  shows "\<exists>u a. messages (handleSendMessage acquire clk input fs s) = messages s @ [u, a]
           \<and> sender u = user \<and> content u = input"
proof -
  have "messages (handleSendMessage acquire clk input fs s) =
      messages s @ [userMessage clk input fs,
        (case acquire input of Inl error \<Rightarrow> errorMessage clk
                             | Inr aiResponse \<Rightarrow> aiMessage clk aiResponse)]"
    using assms by (simp add: handleSendMessage_accepted)
  moreover have "sender (userMessage clk input fs) = user"
    and "content (userMessage clk input fs) = input"
    by (simp_all add: userMessage_def)
  ultimately show ?thesis by blast
qed

theorem user_content_verbatim_witness:
  "\<not> rejected ''  two  words  '' None
   \<and> trim ''  two  words  '' = ''two  words''
   \<and> map content (butlast (messages (handleSendMessage (simulated 0)
        \<lparr>userNow = 1000, userDate = 1000, aiNow = 2500, aiDate = 2500\<rparr>
        ''  two  words  '' None initialState))) = [''  two  words  '']"
proof -
  have h: "\<not> rejected ''  two  words  '' None" by code_simp
  have t: "trim ''  two  words  '' = ''two  words''" by code_simp
  have m: "messages initialState = []" by (simp add: initialState_def)
  show ?thesis
    using h t m
      user_content_verbatim [OF h, of "simulated 0"
        "\<lparr>userNow = 1000, userDate = 1000, aiNow = 2500, aiDate = 2500\<rparr>" initialState]
    by auto
qed

text \<open>
  C2. When the acquirer throws, the assistant message that the call appends has the fixed
  fallback text as its content. The two appended messages are built from the submitted
  text, the files and the clock alone, so they are the same for every thrown value, and
  nothing of the thrown value reaches the message list.
\<close>

theorem failure_gives_fallback:
  assumes "\<not> rejected input fs" and "acquire input = Inl error"
  shows "messages (handleSendMessage acquire clk input fs s) =
           messages s @ [userMessage clk input fs, errorMessage clk]
         \<and> sender (errorMessage clk) = ai
         \<and> content (errorMessage clk) = fallbackText
         \<and> (\<forall>acquire' error'. acquire' input = Inl error' \<longrightarrow>
              handleSendMessage acquire' clk input fs s = handleSendMessage acquire clk input fs s)"
proof -
  have "\<And>acquire' error'. acquire' input = Inl error' \<Longrightarrow>
      handleSendMessage acquire' clk input fs s =
        s\<lparr>messages := messages s @ [userMessage clk input fs, errorMessage clk], isLoading := False\<rparr>"
    using assms(1) by (simp add: handleSendMessage_accepted)
  then show ?thesis using assms(2) by (simp add: errorMessage_def)
qed

theorem failure_gives_fallback_witness:
  "\<not> rejected ''question'' None
   \<and> getAIResponse (\<lambda>prompt options. CallThrows (ErrorInstance ''key sk-123 expired'')) ''question''
       = Inl (ErrorInstance ''Failed to get AI response: key sk-123 expired'')
   \<and> map content (messages (handleSendMessage
        (getAIResponse (\<lambda>prompt options. CallThrows (ErrorInstance ''key sk-123 expired'')))
        \<lparr>userNow = 1000, userDate = 1000, aiNow = 1040, aiDate = 1040\<rparr>
        ''question'' None initialState)) = [''question'', fallbackText]"
proof -
  have h: "\<not> rejected ''question'' None" by code_simp
  have e: "getAIResponse (\<lambda>prompt options. CallThrows (ErrorInstance ''key sk-123 expired'')) ''question''
       = Inl (ErrorInstance ''Failed to get AI response: key sk-123 expired'')"
    by (simp add: getAIResponse_def rethrow_def errorText_def)
  have m: "messages initialState = []" by (simp add: initialState_def)
  note r = failure_gives_fallback [where input = "''question''" and fs = None
        and acquire = "getAIResponse (\<lambda>prompt options. CallThrows (ErrorInstance ''key sk-123 expired''))"
        and error = "ErrorInstance ''Failed to get AI response: key sk-123 expired''"
        and clk = "\<lparr>userNow = 1000, userDate = 1000, aiNow = 1040, aiDate = 1040\<rparr>"
        and s = initialState, OF h e]
  from r have "messages (handleSendMessage
        (getAIResponse (\<lambda>prompt options. CallThrows (ErrorInstance ''key sk-123 expired'')))
        \<lparr>userNow = 1000, userDate = 1000, aiNow = 1040, aiDate = 1040\<rparr>
        ''question'' None initialState)
      = messages initialState
        @ [userMessage \<lparr>userNow = 1000, userDate = 1000, aiNow = 1040, aiDate = 1040\<rparr> ''question'' None,
           errorMessage \<lparr>userNow = 1000, userDate = 1000, aiNow = 1040, aiDate = 1040\<rparr>]"
    by (rule conjunct1)
  then show ?thesis
    using h e m by (simp add: userMessage_def errorMessage_def)
qed

text \<open>
  C3. In a call that passes the test, the state in which the component waits for the
  acquirer holds the user message and has \<open>isLoading\<close> set; the next state holds the
  assistant message as well and has \<open>isLoading\<close> cleared, whether the acquirer returned
  or threw. (The states are those of the renders: the updates that one synchronous
  stretch queues take effect together.)
\<close>

theorem loading_spans_the_await:
  assumes "\<not> rejected input fs"
  shows "\<exists>awaiting ended a.
           handleSendMessage_renders acquire clk input fs s = [awaiting, ended]
           \<and> messages awaiting = messages s @ [userMessage clk input fs]
           \<and> isLoading awaiting
           \<and> messages ended = messages awaiting @ [a]
           \<and> sender a = ai
           \<and> \<not> isLoading ended
           \<and> handleSendMessage acquire clk input fs s = ended
           \<and> (\<forall>aiResponse. acquire input = Inr aiResponse \<longrightarrow> a = aiMessage clk aiResponse)
           \<and> (\<forall>error. acquire input = Inl error \<longrightarrow> a = errorMessage clk)"
proof -
  let ?a = "case acquire input of Inl error \<Rightarrow> errorMessage clk
                                | Inr aiResponse \<Rightarrow> aiMessage clk aiResponse"
  let ?awaiting = "s\<lparr>messages := messages s @ [userMessage clk input fs], isLoading := True\<rparr>"
  let ?ended = "s\<lparr>messages := messages s @ [userMessage clk input fs, ?a], isLoading := False\<rparr>"
  have "handleSendMessage_renders acquire clk input fs s = [?awaiting, ?ended]"
    using assms by (rule renders_accepted)
  moreover have "messages ?awaiting = messages s @ [userMessage clk input fs]"
    and "isLoading ?awaiting"
    and "messages ?ended = messages ?awaiting @ [?a]"
    and "\<not> isLoading ?ended"
    by simp_all
  moreover have "sender ?a = ai" by (rule sender_answer)
  moreover have "handleSendMessage acquire clk input fs s = ?ended"
    using assms by (rule handleSendMessage_accepted)
  moreover have "\<forall>aiResponse. acquire input = Inr aiResponse \<longrightarrow> ?a = aiMessage clk aiResponse"
    and "\<forall>error. acquire input = Inl error \<longrightarrow> ?a = errorMessage clk"
    by simp_all
  ultimately show ?thesis by blast
qed

theorem loading_spans_the_await_witness:
  "\<not> rejected ''question'' None
   \<and> map isLoading (handleSendMessage_renders (simulated 0)
        \<lparr>userNow = 1000, userDate = 1000, aiNow = 2500, aiDate = 2500\<rparr>
        ''question'' None initialState) = [True, False]
   \<and> map (map sender \<circ> messages) (handleSendMessage_renders (simulated 0)
        \<lparr>userNow = 1000, userDate = 1000, aiNow = 2500, aiDate = 2500\<rparr>
        ''question'' None initialState) = [[user], [user, ai]]
   \<and> map isLoading (handleSendMessage_renders (\<lambda>msg. Inl (OtherValue None))
        \<lparr>userNow = 1000, userDate = 1000, aiNow = 1040, aiDate = 1040\<rparr>
        ''question'' None initialState) = [True, False]
   \<and> map (map sender \<circ> messages) (handleSendMessage_renders (\<lambda>msg. Inl (OtherValue None))
        \<lparr>userNow = 1000, userDate = 1000, aiNow = 1040, aiDate = 1040\<rparr>
        ''question'' None initialState) = [[user], [user, ai]]"
proof -
  have h: "\<not> rejected ''question'' None" by code_simp
  have m: "messages initialState = []" by (simp add: initialState_def)
  have u: "\<And>clk. sender (userMessage clk ''question'' None) = user"
    by (simp add: userMessage_def)
  show ?thesis
    using h m u
      loading_spans_the_await [OF h, of "simulated 0"
        "\<lparr>userNow = 1000, userDate = 1000, aiNow = 2500, aiDate = 2500\<rparr>" initialState]
      loading_spans_the_await [OF h, of "\<lambda>msg. Inl (OtherValue None)"
        "\<lparr>userNow = 1000, userDate = 1000, aiNow = 1040, aiDate = 1040\<rparr>" initialState]
    by auto
qed

subsection \<open>A session\<close>

lemma turn_accepted:
  assumes "\<not> rejected (sent t) (attached t)"
  shows "messages (turn t s) =
     messages s @ [userMessage (clock t) (sent t) (attached t),
       (case acquirer t (sent t) of Inl error \<Rightarrow> errorMessage (clock t)
                                  | Inr aiResponse \<Rightarrow> aiMessage (clock t) aiResponse)]"
  using assms by (simp add: turn_def handleSendMessage_accepted)

lemma turn_timestamps:
  assumes "\<not> rejected (sent t) (attached t)"
  shows "map timestamp (messages (turn t s)) =
     map timestamp (messages s) @ [userDate (clock t), aiDate (clock t)]"
proof -
  have "timestamp (userMessage (clock t) (sent t) (attached t)) = userDate (clock t)"
    by (simp add: userMessage_def)
  then show ?thesis
    by (simp add: turn_accepted [OF assms] timestamp_answer)
qed

lemma fold_turn_timestamps:
  assumes "\<forall>t \<in> set turns. \<not> rejected (sent t) (attached t)"
  shows "map timestamp (messages (fold turn turns s)) =
     map timestamp (messages s) @ dateReadings turns"
  using assms
proof (induction turns arbitrary: s)
  case Nil
  then show ?case by (simp add: dateReadings_def)
next
  case (Cons t turns)
  then have "map timestamp (messages (fold turn turns (turn t s))) =
      map timestamp (messages (turn t s)) @ dateReadings turns"
    by simp
  moreover have "map timestamp (messages (turn t s)) =
      map timestamp (messages s) @ [userDate (clock t), aiDate (clock t)]"
    using Cons.prems by (simp add: turn_timestamps)
  ultimately show ?case by (simp add: dateReadings_def)
qed

lemma length_dateReadings: "length (dateReadings turns) = 2 * length turns"
  by (induction turns) (simp_all add: dateReadings_def)

lemma dateReadings_subset: "set (dateReadings turns) \<subseteq> set (clockReadings turns)"
  by (induction turns) (auto simp: dateReadings_def clockReadings_def)

text \<open>The readings that become timestamps are some of the readings, in the same order.\<close>

lemma sorted_dateReadings:
  "sorted (clockReadings turns) \<Longrightarrow> sorted (dateReadings turns)"
proof (induction turns)
  case Nil
  show ?case by (simp add: dateReadings_def)
next
  case (Cons t turns)
  have c: "clockReadings (t # turns) =
      [userNow (clock t), userDate (clock t), aiNow (clock t), aiDate (clock t)]
      @ clockReadings turns"
    by (simp add: clockReadings_def)
  have d: "dateReadings (t # turns) = [userDate (clock t), aiDate (clock t)] @ dateReadings turns"
    by (simp add: dateReadings_def)
  from Cons.prems have s: "sorted (clockReadings turns)"
    and u: "userDate (clock t) \<le> aiDate (clock t)"
    and b: "\<forall>y \<in> set (clockReadings turns).
              userDate (clock t) \<le> y \<and> aiDate (clock t) \<le> y"
    unfolding c by (auto simp: sorted_append)
  from s have "sorted (dateReadings turns)" by (rule Cons.IH)
  moreover from b have "\<forall>y \<in> set (dateReadings turns).
      userDate (clock t) \<le> y \<and> aiDate (clock t) \<le> y"
    using dateReadings_subset [of turns] by blast
  ultimately show ?case using u unfolding d by (auto simp: sorted_append)
qed

text \<open>
  C9, as stated, fails in its second part: the timestamps are readings of the wall clock
  (\<^verbatim>\<open>new Date()\<close>), and when that clock is set back between two turns the list is not
  sorted by timestamp. Below, the second turn starts at 1500 after the first has ended
  at 2500.
\<close>

theorem session_order_counterexample:
  "\<not> rejected ''ok'' None \<and> \<not> rejected ''more'' None
   \<and> map timestamp (messages (session
        [\<lparr>sent = ''ok'', attached = None,
          clock = \<lparr>userNow = 1000, userDate = 1000, aiNow = 2500, aiDate = 2500\<rparr>,
          acquirer = simulated 0\<rparr>,
         \<lparr>sent = ''more'', attached = None,
          clock = \<lparr>userNow = 1500, userDate = 1500, aiNow = 3000, aiDate = 3000\<rparr>,
          acquirer = simulated 0\<rparr>])) = [1000, 2500, 1500, 3000]
   \<and> \<not> sorted [1000, 2500, 1500, 3000 :: int]"
proof -
  have h1: "\<not> rejected ''ok'' None" by code_simp
  have h2: "\<not> rejected ''more'' None" by code_simp
  show ?thesis
    using h1 h2
    by (simp add: session_def turn_def handleSendMessage_accepted initialState_def
        userMessage_def timestamp_answer)
qed

text \<open>
  C9, amended. After \<open>N\<close> calls, one after the other from the start of the session, each
  passing the test, the list holds \<open>2N\<close> messages, and their timestamps are the readings
  that \<^verbatim>\<open>new Date()\<close> gave, in the order they were taken; the list is sorted by timestamp
  when the clock did not step back between one reading and the next.
\<close>

theorem session_length_and_order:
  assumes "\<forall>t \<in> set turns. \<not> rejected (sent t) (attached t)"
  shows "length (messages (session turns)) = 2 * length turns
         \<and> map timestamp (messages (session turns)) = dateReadings turns
         \<and> (sorted (clockReadings turns) \<longrightarrow> sorted (map timestamp (messages (session turns))))"
proof -
  have ts: "map timestamp (messages (session turns)) = dateReadings turns"
    using fold_turn_timestamps [OF assms, of initialState]
    by (simp add: session_def initialState_def)
  have "length (messages (session turns)) = length (map timestamp (messages (session turns)))"
    by simp
  also have "\<dots> = 2 * length turns"
    by (simp only: ts length_dateReadings)
  finally show ?thesis using ts sorted_dateReadings by simp
qed

theorem session_length_and_order_witness:
  "\<not> rejected ''ok'' None \<and> \<not> rejected [] (Some [File ''a.png''])
   \<and> sorted [1000, 1000, 1001, 1002, 2600, 2600, 2600, 2601 :: int]
   \<and> length (messages (session
        [\<lparr>sent = ''ok'', attached = None,
          clock = \<lparr>userNow = 1000, userDate = 1000, aiNow = 1001, aiDate = 1002\<rparr>,
          acquirer = \<lambda>msg. Inl (OtherValue None)\<rparr>,
         \<lparr>sent = [], attached = Some [File ''a.png''],
          clock = \<lparr>userNow = 2600, userDate = 2600, aiNow = 2600, aiDate = 2601\<rparr>,
          acquirer = simulated 0\<rparr>])) = 4
   \<and> map timestamp (messages (session
        [\<lparr>sent = ''ok'', attached = None,
          clock = \<lparr>userNow = 1000, userDate = 1000, aiNow = 1001, aiDate = 1002\<rparr>,
          acquirer = \<lambda>msg. Inl (OtherValue None)\<rparr>,
         \<lparr>sent = [], attached = Some [File ''a.png''],
          clock = \<lparr>userNow = 2600, userDate = 2600, aiNow = 2600, aiDate = 2601\<rparr>,
          acquirer = simulated 0\<rparr>])) = [1000, 1002, 2600, 2601]
   \<and> sorted (map timestamp (messages (session
        [\<lparr>sent = ''ok'', attached = None,
          clock = \<lparr>userNow = 1000, userDate = 1000, aiNow = 1001, aiDate = 1002\<rparr>,
          acquirer = \<lambda>msg. Inl (OtherValue None)\<rparr>,
         \<lparr>sent = [], attached = Some [File ''a.png''],
          clock = \<lparr>userNow = 2600, userDate = 2600, aiNow = 2600, aiDate = 2601\<rparr>,
          acquirer = simulated 0\<rparr>])))"
proof -
  let ?turns = "[\<lparr>sent = ''ok'', attached = None,
          clock = \<lparr>userNow = 1000, userDate = 1000, aiNow = 1001, aiDate = 1002\<rparr>,
          acquirer = \<lambda>msg. Inl (OtherValue None)\<rparr>,
         \<lparr>sent = [], attached = Some [File ''a.png''],
          clock = \<lparr>userNow = 2600, userDate = 2600, aiNow = 2600, aiDate = 2601\<rparr>,
          acquirer = simulated 0\<rparr>]"
  have h1: "\<not> rejected ''ok'' None" by code_simp
  have h2: "\<not> rejected [] (Some [File ''a.png''])" by code_simp
  have h: "\<forall>t \<in> set ?turns. \<not> rejected (sent t) (attached t)"
    using h1 h2 by simp
  have c: "clockReadings ?turns = [1000, 1000, 1001, 1002, 2600, 2600, 2600, 2601]"
    by (simp add: clockReadings_def)
  have d: "dateReadings ?turns = [1000, 1002, 2600, 2601]"
    by (simp add: dateReadings_def)
  have s: "sorted [1000, 1000, 1001, 1002, 2600, 2600, 2600, 2601 :: int]" by simp
  note r = session_length_and_order [OF h]
  from r have l: "length (messages (session ?turns)) = 2 * length ?turns"
    by (rule conjunct1)
  from r have m: "map timestamp (messages (session ?turns)) = dateReadings ?turns"
    by (rule conjunct1 [OF conjunct2])
  from r have "sorted (clockReadings ?turns) \<longrightarrow> sorted (map timestamp (messages (session ?turns)))"
    by (rule conjunct2 [OF conjunct2])
  with s c have o: "sorted (map timestamp (messages (session ?turns)))"
    by (simp only:)
  from l have l': "length (messages (session ?turns)) = 4" by simp
  from m d have m': "map timestamp (messages (session ?turns)) = [1000, 1002, 2600, 2601]"
    by (simp only:)
  from h1 h2 s l' m' o show ?thesis by (simp only: simp_thms)
qed

text \<open>
  C5 does not hold of the code. The identifier of a user message is the clock reading in
  decimal, that of an assistant message the clock reading plus one. In the first session
  below the answer of the first turn comes at 2500 and the second turn is submitted at
  2501; in the second session the provider throws at once and both turns run within the
  millisecond 1000. In each, two messages of the list share an identifier.
\<close>

theorem ids_collide:
  "map msg_id (messages (session
        [\<lparr>sent = ''ok'', attached = None,
          clock = \<lparr>userNow = 1000, userDate = 1000, aiNow = 2500, aiDate = 2500\<rparr>,
          acquirer = simulated 0\<rparr>,
         \<lparr>sent = ''more'', attached = None,
          clock = \<lparr>userNow = 2501, userDate = 2501, aiNow = 4001, aiDate = 4001\<rparr>,
          acquirer = simulated 0\<rparr>])) = [''1000'', ''2501'', ''2501'', ''4002'']
   \<and> map msg_id (messages (session
        [\<lparr>sent = ''ok'', attached = None,
          clock = \<lparr>userNow = 1000, userDate = 1000, aiNow = 1000, aiDate = 1000\<rparr>,
          acquirer = getAIResponse (\<lambda>prompt options. CallThrows (ErrorInstance ''offline''))\<rparr>,
         \<lparr>sent = ''more'', attached = None,
          clock = \<lparr>userNow = 1000, userDate = 1000, aiNow = 1000, aiDate = 1000\<rparr>,
          acquirer = getAIResponse (\<lambda>prompt options. CallThrows (ErrorInstance ''offline''))\<rparr>]))
       = [''1000'', ''1001'', ''1000'', ''1001'']
   \<and> \<not> distinct [''1000'', ''2501'', ''2501'', ''4002'']
   \<and> \<not> distinct [''1000'', ''1001'', ''1000'', ''1001'']"
proof -
  have h1: "\<not> rejected ''ok'' None" by code_simp
  have h2: "\<not> rejected ''more'' None" by code_simp
  have d: "toString 1000 = ''1000''" "toString 1001 = ''1001''" "toString 2501 = ''2501''"
    "toString 4002 = ''4002''"
    by (simp_all add: toString_def digits.simps digitChars_def)
  have e: "getAIResponse (\<lambda>prompt options. CallThrows (ErrorInstance ''offline'')) msg
      = Inl (ErrorInstance ''Failed to get AI response: offline'')" for msg
    by (simp add: getAIResponse_def rethrow_def errorText_def)
  show ?thesis
    using h1 h2 d
    by (simp add: session_def turn_def handleSendMessage_accepted initialState_def
        userMessage_def aiMessage_def errorMessage_def simulated_def e)
qed

subsection \<open>The clipboard\<close>

lemma copyTwice_page:
  assumes "t2 < t1 + 2000"
  shows "copyTwice t1 text1 id1 t2 text2 id2 =
     \<lparr>ui = initialState\<lparr>copiedId := Some id2\<rparr>, clipboard = text2,
      timers = [t1 + 2000, t2 + 2000]\<rparr>"
  using assms
  by (simp add: copyTwice_def copyMessage_def elapse_def initialPage_def setCopiedId_def)

text \<open>
  C4, as stated, fails: the source starts a timer at each copy and cancels none. After a
  copy at 0 and a copy at 1000, two timers are pending, and at 2000, which is 1000 ms
  after the second copy, the first of them has cleared \<open>copiedId\<close>.
\<close>

theorem copy_window_counterexample:
  "timers (copyTwice 0 ''abc'' ''m1'' 1000 ''def'' ''m2'') = [2000, 3000]
   \<and> copiedId (ui (copyTwice 0 ''abc'' ''m1'' 1000 ''def'' ''m2'')) = Some ''m2''
   \<and> copiedId (ui (elapse 2000 (copyTwice 0 ''abc'' ''m1'' 1000 ''def'' ''m2''))) = None"
  by (simp add: copyTwice_def copyMessage_def elapse_def initialPage_def setCopiedId_def
      initialState_def)

lemma clear_all:
  "copiedId (fold (\<lambda>due. setCopiedId None) dues s) = (if dues = [] then copiedId s else None)"
  by (induction dues arbitrary: s rule: rev_induct) (simp_all add: setCopiedId_def)

lemma elapse_copiedId:
  "copiedId (ui (elapse t p)) =
     (if \<exists>due \<in> set (timers p). due \<le> t then None else copiedId (ui p))"
proof -
  have "(filter (\<lambda>due. due \<le> t) (timers p) = []) = (\<not> (\<exists>due \<in> set (timers p). due \<le> t))"
    by (simp add: filter_empty_conv)
  then show ?thesis by (simp add: elapse_def clear_all)
qed

text \<open>
  C4, amended. Each copy whose write to the clipboard succeeds, in any state of the page,
  sets \<open>copiedId\<close> to its identifier and starts one more timer, due 2000 ms later; every
  timer that was pending stays pending (timers stack, none is cancelled). From then on,
  with no further copy, \<open>copiedId\<close> is that identifier as long as no pending timer, old or
  new, is due, and is empty once any of them has fired. In particular, when a second
  copy is made before the timer of the first fires and no other timer is pending, both
  timers are pending after it, \<open>copiedId\<close> is the new identifier only until 2000 ms after
  the first copy, and is empty from then on. (A timer fires at the time it is due.)
\<close>

theorem copy_timers_stack:
  "timers (copyMessage True now text messageId p) = timers p @ [now + 2000]
   \<and> copiedId (ui (copyMessage True now text messageId p)) = Some messageId
   \<and> copiedId (ui (elapse t (copyMessage True now text messageId p))) =
       (if \<exists>due \<in> set (timers p @ [now + 2000]). due \<le> t then None else Some messageId)
   \<and> (t1 \<le> t2 \<and> t2 < t1 + 2000 \<longrightarrow>
        timers (copyTwice t1 text1 id1 t2 text2 id2) = [t1 + 2000, t2 + 2000]
        \<and> copiedId (ui (copyTwice t1 text1 id1 t2 text2 id2)) = Some id2
        \<and> (\<forall>t. t2 \<le> t \<and> t < t1 + 2000 \<longrightarrow>
             copiedId (ui (elapse t (copyTwice t1 text1 id1 t2 text2 id2))) = Some id2)
        \<and> (\<forall>t. t1 + 2000 \<le> t \<longrightarrow>
             copiedId (ui (elapse t (copyTwice t1 text1 id1 t2 text2 id2))) = None))"
proof (intro conjI impI allI)
  show "timers (copyMessage True now text messageId p) = timers p @ [now + 2000]"
    by (simp add: copyMessage_def)
next
  show "copiedId (ui (copyMessage True now text messageId p)) = Some messageId"
    by (simp add: copyMessage_def setCopiedId_def)
next
  have "timers (copyMessage True now text messageId p) = timers p @ [now + 2000]"
    and "copiedId (ui (copyMessage True now text messageId p)) = Some messageId"
    by (simp_all add: copyMessage_def setCopiedId_def)
  then show "copiedId (ui (elapse t (copyMessage True now text messageId p))) =
       (if \<exists>due \<in> set (timers p @ [now + 2000]). due \<le> t then None else Some messageId)"
    by (simp only: elapse_copiedId)
next
  assume "t1 \<le> t2 \<and> t2 < t1 + 2000"
  then show "timers (copyTwice t1 text1 id1 t2 text2 id2) = [t1 + 2000, t2 + 2000]"
    by (simp add: copyTwice_page)
next
  assume "t1 \<le> t2 \<and> t2 < t1 + 2000"
  then show "copiedId (ui (copyTwice t1 text1 id1 t2 text2 id2)) = Some id2"
    by (simp add: copyTwice_page)
next
  fix t
  assume a: "t1 \<le> t2 \<and> t2 < t1 + 2000" and "t2 \<le> t \<and> t < t1 + 2000"
  then have "\<not> t1 + 2000 \<le> t" "\<not> t2 + 2000 \<le> t" by simp_all
  with a show "copiedId (ui (elapse t (copyTwice t1 text1 id1 t2 text2 id2))) = Some id2"
    by (simp add: copyTwice_page elapse_copiedId)
next
  fix t
  assume "t1 \<le> t2 \<and> t2 < t1 + 2000" and "t1 + 2000 \<le> t"
  then show "copiedId (ui (elapse t (copyTwice t1 text1 id1 t2 text2 id2))) = None"
    by (simp add: copyTwice_page elapse_copiedId)
qed

text \<open>
  The witness has three copies, at 0, 500 and 1000, and then the two copies of the
  counterexample: after the third copy three timers are pending, and the timer of the
  first copy clears \<open>copiedId\<close> at 2000.
\<close>

theorem copy_timers_stack_witness:
  "timers (elapse 1000 (copyMessage True 500 ''b'' ''m2''
       (elapse 500 (copyMessage True 0 ''a'' ''m1'' initialPage)))) = [2000, 2500]
   \<and> timers (copyMessage True 1000 ''c'' ''m3''
       (elapse 1000 (copyMessage True 500 ''b'' ''m2''
         (elapse 500 (copyMessage True 0 ''a'' ''m1'' initialPage))))) = [2000, 2500, 3000]
   \<and> copiedId (ui (elapse 1999 (copyMessage True 1000 ''c'' ''m3''
       (elapse 1000 (copyMessage True 500 ''b'' ''m2''
         (elapse 500 (copyMessage True 0 ''a'' ''m1'' initialPage))))))) = Some ''m3''
   \<and> copiedId (ui (elapse 2000 (copyMessage True 1000 ''c'' ''m3''
       (elapse 1000 (copyMessage True 500 ''b'' ''m2''
         (elapse 500 (copyMessage True 0 ''a'' ''m1'' initialPage))))))) = None
   \<and> (0 :: int) \<le> 1000 \<and> (1000 :: int) < 0 + 2000
   \<and> timers (copyTwice 0 ''abc'' ''m1'' 1000 ''def'' ''m2'') = [2000, 3000]
   \<and> copiedId (ui (elapse 1999 (copyTwice 0 ''abc'' ''m1'' 1000 ''def'' ''m2''))) = Some ''m2''
   \<and> copiedId (ui (elapse 2000 (copyTwice 0 ''abc'' ''m1'' 1000 ''def'' ''m2''))) = None"
proof -
  let ?p = "elapse 1000 (copyMessage True 500 ''b'' ''m2''
       (elapse 500 (copyMessage True 0 ''a'' ''m1'' initialPage)))"
  have p: "timers ?p = [2000, 2500]"
    by (simp add: elapse_def copyMessage_def initialPage_def)
  note g = copy_timers_stack [of 1000 "''c''" "''m3''" ?p]
  from g [of 1999] have g1: "timers (copyMessage True 1000 ''c'' ''m3'' ?p) = timers ?p @ [1000 + 2000]"
    by (rule conjunct1)
  from g [of 1999] have g2: "copiedId (ui (elapse 1999 (copyMessage True 1000 ''c'' ''m3'' ?p))) =
       (if \<exists>due \<in> set (timers ?p @ [1000 + 2000]). due \<le> 1999 then None else Some ''m3'')"
    by (rule conjunct1 [OF conjunct2 [OF conjunct2]])
  from g [of 2000] have g3: "copiedId (ui (elapse 2000 (copyMessage True 1000 ''c'' ''m3'' ?p))) =
       (if \<exists>due \<in> set (timers ?p @ [1000 + 2000]). due \<le> 2000 then None else Some ''m3'')"
    by (rule conjunct1 [OF conjunct2 [OF conjunct2]])
  have h: "(0 :: int) \<le> 1000 \<and> (1000 :: int) < 0 + 2000" by simp
  from g [of 0 0 1000 "''abc''" "''m1''" "''def''" "''m2''"] h
  have w: "timers (copyTwice 0 ''abc'' ''m1'' 1000 ''def'' ''m2'') = [0 + 2000, 1000 + 2000]
        \<and> copiedId (ui (copyTwice 0 ''abc'' ''m1'' 1000 ''def'' ''m2'')) = Some ''m2''
        \<and> (\<forall>t. 1000 \<le> t \<and> t < 0 + 2000 \<longrightarrow>
             copiedId (ui (elapse t (copyTwice 0 ''abc'' ''m1'' 1000 ''def'' ''m2''))) = Some ''m2'')
        \<and> (\<forall>t. 0 + 2000 \<le> t \<longrightarrow>
             copiedId (ui (elapse t (copyTwice 0 ''abc'' ''m1'' 1000 ''def'' ''m2''))) = None)"
    by blast
  from w have w1: "timers (copyTwice 0 ''abc'' ''m1'' 1000 ''def'' ''m2'') = [2000, 3000]"
    by simp
  from w have w2: "copiedId (ui (elapse 1999 (copyTwice 0 ''abc'' ''m1'' 1000 ''def'' ''m2''))) = Some ''m2''"
    by simp
  from w have w3: "copiedId (ui (elapse 2000 (copyTwice 0 ''abc'' ''m1'' 1000 ''def'' ''m2''))) = None"
    by simp
  from g1 p have a1: "timers (copyMessage True 1000 ''c'' ''m3'' ?p) = [2000, 2500, 3000]"
    by simp
  from g2 p have a2: "copiedId (ui (elapse 1999 (copyMessage True 1000 ''c'' ''m3'' ?p))) = Some ''m3''"
    by simp
  from g3 p have a3: "copiedId (ui (elapse 2000 (copyMessage True 1000 ''c'' ''m3'' ?p))) = None"
    by simp
  from p a1 a2 a3 h w1 w2 w3 show ?thesis by (simp only: simp_thms)
qed

end
